theory Spec2Isabelle
  imports Main
begin

section \<open>The task routes of the Task Manager API\<close>

text \<open>
  A shallow embedding of the Express router for the task resource (the six handlers
  of the routes file: list, get, create, update, delete, toggle). Each handler becomes
  a function from the caller's identity, the request and the store to an outcome and
  the new store. An outcome is either the JSON response the handler sends or the error
  it forwards with \<^verbatim>\<open>next(error)\<close> from its \<^verbatim>\<open>catch\<close> block.
\<close>

subsection \<open>JavaScript values\<close>

text \<open>
  The values a parsed JSON body can hold, plus \<^verbatim>\<open>undefined\<close> for a key
  that is absent. Numbers are integers here: the handlers only test a number for
  being zero. A \<open>char\<close> stands for one code unit below 256.
\<close>

datatype jsval =
    JUndefined
  | JNull
  | JBool bool
  | JNum int
  | JStr string
  | JArr "jsval list"
  | JObj "(string \<times> jsval) list"

text \<open>What \<^verbatim>\<open>if (v)\<close> and \<^verbatim>\<open>!v\<close> test.\<close>

fun truthy :: "jsval \<Rightarrow> bool" where
  "truthy JUndefined = False"
| "truthy JNull = False"
| "truthy (JBool b) = b"
| "truthy (JNum n) = (n \<noteq> 0)"
| "truthy (JStr s) = (s \<noteq> [])"
| "truthy (JArr xs) = True"
| "truthy (JObj kvs) = True"

datatype error = TypeError | StoreError

text \<open>
  \<^verbatim>\<open>String.prototype.trim\<close>: white space is removed from both ends. The white
  space characters below 256 are tab, line feed, vertical tab, form feed, carriage
  return, space and the no-break space.
\<close>

definition is_space :: "char \<Rightarrow> bool" where
  "is_space c = (of_char c \<in> {9, 10, 11, 12, 13, 32, 160 :: nat})"

definition trim :: "string \<Rightarrow> string" where
  "trim s = rev (dropWhile is_space (rev (dropWhile is_space s)))"

text \<open>
  \<^verbatim>\<open>v.trim()\<close> on a value of a request body: only a string has the method.
  On \<^verbatim>\<open>undefined\<close> and \<^verbatim>\<open>null\<close> the property access raises a TypeError, and
  on a boolean, a number, an array or an object \<^verbatim>\<open>trim\<close> is not a function
  (an object parsed from JSON holds no functions), which raises a TypeError too.
\<close>

fun js_trim :: "jsval \<Rightarrow> error + string" where
  "js_trim (JStr s) = Inr (trim s)"
| "js_trim v = Inl TypeError"

text \<open>
  A request body or query: the keys present and their values. Reading a key that is
  absent gives \<^verbatim>\<open>undefined\<close>. A query string holds strings only.
\<close>

type_synonym body = "string \<rightharpoonup> jsval"
type_synonym query = "string \<rightharpoonup> string"

definition lookup :: "body \<Rightarrow> string \<Rightarrow> jsval" where
  "lookup b k = (case b k of None \<Rightarrow> JUndefined | Some v \<Rightarrow> v)"

subsection \<open>Tasks and the task store\<close>

text \<open>
  A \<^verbatim>\<open>Date\<close> object: an instant in milliseconds, or the Invalid Date that
  \<^verbatim>\<open>new Date(v)\<close> gives when \<^verbatim>\<open>v\<close> does not parse.
\<close>

datatype jsdate = Instant int | InvalidDate

type_synonym object_id = nat

text \<open>
  The task document. The handlers assign \<open>priority\<close> and \<open>completed\<close> from the
  request body as they are, so both fields hold a JavaScript value; \<open>description\<close>
  and \<open>dueDate\<close> are \<open>None\<close> when unset or null.
\<close>

record task =
  task_id :: object_id
  title :: string
  description :: "string option"
  dueDate :: "jsdate option"
  priority :: jsval
  completed :: jsval
  user :: object_id
  createdAt :: int
  updatedAt :: int

text \<open>
  Modelled from the spec: the Task model and the database behind it are not part of the
  routes file. The store is a collection of task documents with store-assigned
  identifiers; it supports a query by filter, a lookup and a find-and-remove by
  (identifier, owner), and saving a document. \<open>next_id\<close> is the next identifier the
  store hands out. A request names a task by a well-formed identifier.
\<close>

record store =
  tasks :: "task list"
  next_id :: object_id

text \<open>
  Modelled from the spec: what a request depends on besides the store. \<open>new_Date\<close> is
  JavaScript's \<^verbatim>\<open>Date\<close> constructor, \<open>now\<close> the time of the request (for the
  store-managed timestamps), \<open>default_priority\<close> the default the schema gives the
  priority of a new task.
\<close>

record env =
  new_Date :: "jsval \<Rightarrow> jsdate"
  now :: int
  default_priority :: jsval

text \<open>The filter object of the list handler: \<^verbatim>\<open>{ user, priority?, completed? }\<close>.\<close>

record task_filter =
  flt_user :: object_id
  flt_priority :: "string option"
  flt_completed :: "bool option"

text \<open>Modelled from the spec: a task matches when every key of the filter equals its field.\<close>

definition matches :: "task_filter \<Rightarrow> task \<Rightarrow> bool" where
  "matches f t =
     (user t = flt_user f
      \<and> (case flt_priority f of None \<Rightarrow> True | Some p \<Rightarrow> priority t = JStr p)
      \<and> (case flt_completed f of None \<Rightarrow> True | Some b \<Rightarrow> completed t = JBool b))"

text \<open>Modelled from the spec: \<^verbatim>\<open>Task.find(filter)\<close>.\<close>

definition Task_find :: "task_filter \<Rightarrow> store \<Rightarrow> task list" where
  "Task_find f st = filter (matches f) (tasks st)"

text \<open>
  Modelled from the spec: \<^verbatim>\<open>.sort({ [sortBy]: sortOrder })\<close>, an insertion sort on
  the value of the named field, ascending for \<open>1\<close> and descending otherwise. Values of
  different types are ordered by type (null, number, string, object, array, boolean),
  strings by their code units. A field the task does not have reads as undefined.
\<close>

definition field_value :: "string \<Rightarrow> task \<Rightarrow> jsval" where
  "field_value k t =
     (if k = ''_id'' then JNum (int (task_id t))
      else if k = ''title'' then JStr (title t)
      else if k = ''description'' then (case description t of None \<Rightarrow> JNull | Some d \<Rightarrow> JStr d)
      else if k = ''dueDate'' then
        (case dueDate t of Some (Instant d) \<Rightarrow> JNum d | _ \<Rightarrow> JNull)
      else if k = ''priority'' then priority t
      else if k = ''completed'' then completed t
      else if k = ''user'' then JNum (int (user t))
      else if k = ''createdAt'' then JNum (createdAt t)
      else if k = ''updatedAt'' then JNum (updatedAt t)
      else JUndefined)"

fun type_rank :: "jsval \<Rightarrow> nat" where
  "type_rank JUndefined = 0"
| "type_rank JNull = 0"
| "type_rank (JNum n) = 1"
| "type_rank (JStr s) = 2"
| "type_rank (JObj kvs) = 3"
| "type_rank (JArr xs) = 4"
| "type_rank (JBool b) = 5"

fun str_le :: "string \<Rightarrow> string \<Rightarrow> bool" where
  "str_le [] ys = True"
| "str_le (x # xs) [] = False"
| "str_le (x # xs) (y # ys) =
     (if x = y then str_le xs ys else (of_char x :: nat) < of_char y)"

fun js_le :: "jsval \<Rightarrow> jsval \<Rightarrow> bool" where
  "js_le (JNum a) (JNum b) = (a \<le> b)"
| "js_le (JStr a) (JStr b) = str_le a b"
| "js_le (JBool a) (JBool b) = (if a then b else True)"
| "js_le a b = (type_rank a \<le> type_rank b)"

fun insert_by :: "('a \<Rightarrow> 'a \<Rightarrow> bool) \<Rightarrow> 'a \<Rightarrow> 'a list \<Rightarrow> 'a list" where
  "insert_by le x [] = [x]"
| "insert_by le x (y # ys) = (if le x y then x # y # ys else y # insert_by le x ys)"

fun sort_by :: "('a \<Rightarrow> 'a \<Rightarrow> bool) \<Rightarrow> 'a list \<Rightarrow> 'a list" where
  "sort_by le [] = []"
| "sort_by le (x # xs) = insert_by le x (sort_by le xs)"

definition sort_tasks :: "string \<Rightarrow> int \<Rightarrow> task list \<Rightarrow> task list" where
  "sort_tasks k dir ts =
     (if dir = 1 then sort_by (\<lambda>a b. js_le (field_value k a) (field_value k b)) ts
      else sort_by (\<lambda>a b. js_le (field_value k b) (field_value k a)) ts)"

text \<open>
  Modelled from the spec: \<^verbatim>\<open>Task.findOne({ _id, user })\<close>, the first task with
  this identifier and this owner.
\<close>

definition Task_findOne :: "object_id \<Rightarrow> object_id \<Rightarrow> store \<Rightarrow> task option" where
  "Task_findOne i c st = find (\<lambda>t. task_id t = i \<and> user t = c) (tasks st)"

fun remove_first :: "('a \<Rightarrow> bool) \<Rightarrow> 'a list \<Rightarrow> 'a list" where
  "remove_first P [] = []"
| "remove_first P (x # xs) = (if P x then xs else x # remove_first P xs)"

text \<open>
  Modelled from the spec: \<^verbatim>\<open>Task.findOneAndDelete({ _id, user })\<close> removes the
  first matching task and returns it.
\<close>

definition Task_findOneAndDelete :: "object_id \<Rightarrow> object_id \<Rightarrow> store \<Rightarrow> task option \<times> store" where
  "Task_findOneAndDelete i c st =
     (Task_findOne i c st,
      st\<lparr>tasks := remove_first (\<lambda>t. task_id t = i \<and> user t = c) (tasks st)\<rparr>)"

text \<open>
  Modelled from the spec: saving a document. The store rejects a document whose due
  date is the Invalid Date (a malformed date is forwarded as an unexpected error).
  Otherwise the last-modified timestamp is set, and the document replaces the stored
  one with its identifier, or is added when the store has none.
\<close>

fun replace_doc :: "task \<Rightarrow> task list \<Rightarrow> task list" where
  "replace_doc d [] = [d]"
| "replace_doc d (t # ts) = (if task_id t = task_id d then d # ts else t # replace_doc d ts)"

definition task_save :: "env \<Rightarrow> task \<Rightarrow> store \<Rightarrow> error + (task \<times> store)" where
  "task_save e d st =
     (if dueDate d = Some InvalidDate then Inl StoreError
      else let d' = d\<lparr>updatedAt := now e\<rparr>
           in Inr (d', st\<lparr>tasks := replace_doc d' (tasks st)\<rparr>))"

text \<open>
  Modelled from the spec: \<^verbatim>\<open>new Task(taskData)\<close>. The store assigns the
  identifier; a field that \<^verbatim>\<open>taskData\<close> leaves out takes the schema's default
  (\<open>completed\<close> is false).
\<close>

record task_data =
  td_title :: string
  td_user :: object_id
  td_description :: "string option"
  td_dueDate :: "jsdate option"
  td_priority :: "jsval option"

definition new_Task :: "env \<Rightarrow> task_data \<Rightarrow> store \<Rightarrow> task \<times> store" where
  "new_Task e td st =
     (\<lparr>task_id = next_id st,
       title = td_title td,
       description = td_description td,
       dueDate = td_dueDate td,
       priority = (case td_priority td of None \<Rightarrow> default_priority e | Some p \<Rightarrow> p),
       completed = JBool False,
       user = td_user td,
       createdAt = now e,
       updatedAt = now e\<rparr>,
      st\<lparr>next_id := Suc (next_id st)\<rparr>)"

subsection \<open>Responses\<close>

text \<open>
  The JSON a handler sends, with its HTTP status (\<^verbatim>\<open>res.json\<close> alone sends 200).
  \<open>Next\<close> is the error a handler's \<^verbatim>\<open>catch\<close> block forwards to the error
  formatter, which is not part of the routes file.
\<close>

datatype payload = NoData | TaskData task | TaskList "task list"

record response =
  status :: nat
  success :: bool
  message :: "string option"
  count :: "nat option"
  data :: payload

datatype outcome = Json response | Next error

definition not_found :: response where
  "not_found =
     \<lparr>status = 404, success = False, message = Some ''Task not found'',
      count = None, data = NoData\<rparr>"

definition title_required :: response where
  "title_required =
     \<lparr>status = 400, success = False, message = Some ''Task title is required'',
      count = None, data = NoData\<rparr>"

definition ok_message :: "nat \<Rightarrow> string \<Rightarrow> payload \<Rightarrow> response" where
  "ok_message code msg d =
     \<lparr>status = code, success = True, message = Some msg, count = None, data = d\<rparr>"

subsection \<open>The handlers\<close>

text \<open>\<^verbatim>\<open>GET /\<close>: the filter and the sort come from the query string.\<close>

definition build_filter :: "object_id \<Rightarrow> query \<Rightarrow> task_filter" where
  "build_filter c q =
     \<lparr>flt_user = c,
      flt_priority =
        (case q ''priority'' of
           None \<Rightarrow> None
         | Some p \<Rightarrow> if p \<noteq> '''' \<and> p \<noteq> ''all'' then Some p else None),
      flt_completed =
        (case q ''completed'' of
           None \<Rightarrow> None
         | Some v \<Rightarrow> if v \<noteq> ''all'' then Some (v = ''true'') else None)\<rparr>"

definition sort_field :: "query \<Rightarrow> string" where
  "sort_field q = (case q ''sortBy'' of None \<Rightarrow> ''createdAt'' | Some k \<Rightarrow> k)"

definition sort_order :: "query \<Rightarrow> int" where
  "sort_order q =
     (let order = (case q ''order'' of None \<Rightarrow> ''desc'' | Some v \<Rightarrow> v)
      in if order = ''asc'' then 1 else - 1)"

definition list_tasks :: "object_id \<Rightarrow> query \<Rightarrow> store \<Rightarrow> outcome \<times> store" where
  "list_tasks c q st =
     (let found = sort_tasks (sort_field q) (sort_order q) (Task_find (build_filter c q) st)
      in (Json \<lparr>status = 200, success = True, message = None,
                count = Some (length found), data = TaskList found\<rparr>, st))"

text \<open>\<^verbatim>\<open>GET /:id\<close>.\<close>

definition get_task :: "object_id \<Rightarrow> object_id \<Rightarrow> store \<Rightarrow> outcome \<times> store" where
  "get_task c i st =
     (case Task_findOne i c st of
        None \<Rightarrow> (Json not_found, st)
      | Some t \<Rightarrow>
          (Json \<lparr>status = 200, success = True, message = None,
                 count = None, data = TaskData t\<rparr>, st))"

text \<open>
  \<^verbatim>\<open>POST /\<close>. The check \<^verbatim>\<open>!title || title.trim() === ''\<close> evaluates
  \<^verbatim>\<open>title.trim()\<close> only for a truthy title, and a raise there leaves the
  \<^verbatim>\<open>try\<close> block. \<open>trim_if_given\<close> is the right-hand side of
  \<^verbatim>\<open>if (description) taskData.description = description.trim()\<close>. When the save
  fails the identifier is spent and no task is stored.
\<close>

definition trim_if_given :: "jsval \<Rightarrow> error + string option" where
  "trim_if_given v = (if truthy v then map_sum id Some (js_trim v) else Inr None)"

definition create_task :: "env \<Rightarrow> object_id \<Rightarrow> body \<Rightarrow> store \<Rightarrow> outcome \<times> store" where
  "create_task e c b st =
     (let ttl = lookup b ''title''; desc = lookup b ''description'';
          due = lookup b ''dueDate''; prio = lookup b ''priority''
      in if \<not> truthy ttl then (Json title_required, st)
         else case js_trim ttl of
           Inl err \<Rightarrow> (Next err, st)
         | Inr s \<Rightarrow>
             if s = [] then (Json title_required, st)
             else case trim_if_given desc of
               Inl err \<Rightarrow> (Next err, st)
             | Inr d \<Rightarrow>
                 let td = \<lparr>td_title = s, td_user = c, td_description = d,
                           td_dueDate = (if truthy due then Some (new_Date e due) else None),
                           td_priority = (if truthy prio then Some prio else None)\<rparr>;
                     (doc, st1) = new_Task e td st
                 in case task_save e doc st1 of
                      Inl err \<Rightarrow> (Next err, st1)
                    | Inr (doc', st2) \<Rightarrow>
                        (Json (ok_message 201 ''Task created successfully'' (TaskData doc')), st2))"

text \<open>
  \<^verbatim>\<open>PUT /:id\<close>. The five assignments run in the source's order on the document
  in memory; a raise in one of them leaves the store as it was.
\<close>

definition set_title :: "jsval \<Rightarrow> task \<Rightarrow> error + task" where
  "set_title v t =
     (if v \<noteq> JUndefined then map_sum id (\<lambda>s. t\<lparr>title := s\<rparr>) (js_trim v) else Inr t)"

definition set_description :: "jsval \<Rightarrow> task \<Rightarrow> error + task" where
  "set_description v t =
     (if v \<noteq> JUndefined then map_sum id (\<lambda>s. t\<lparr>description := Some s\<rparr>) (js_trim v)
      else Inr t)"

definition set_dueDate :: "env \<Rightarrow> jsval \<Rightarrow> task \<Rightarrow> task" where
  "set_dueDate e v t =
     (if v \<noteq> JUndefined
      then t\<lparr>dueDate := (if truthy v then Some (new_Date e v) else None)\<rparr>
      else t)"

definition set_priority :: "jsval \<Rightarrow> task \<Rightarrow> task" where
  "set_priority v t = (if v \<noteq> JUndefined then t\<lparr>priority := v\<rparr> else t)"

definition set_completed :: "jsval \<Rightarrow> task \<Rightarrow> task" where
  "set_completed v t = (if v \<noteq> JUndefined then t\<lparr>completed := v\<rparr> else t)"

definition update_task ::
  "env \<Rightarrow> object_id \<Rightarrow> object_id \<Rightarrow> body \<Rightarrow> store \<Rightarrow> outcome \<times> store" where
  "update_task e c i b st =
     (let ttl = lookup b ''title''; desc = lookup b ''description'';
          due = lookup b ''dueDate''; prio = lookup b ''priority'';
          comp = lookup b ''completed''
      in case Task_findOne i c st of
           None \<Rightarrow> (Json not_found, st)
         | Some t \<Rightarrow>
             (case set_title ttl t of
                Inl err \<Rightarrow> (Next err, st)
              | Inr t1 \<Rightarrow>
                  (case set_description desc t1 of
                     Inl err \<Rightarrow> (Next err, st)
                   | Inr t2 \<Rightarrow>
                       (case task_save e (set_completed comp (set_priority prio (set_dueDate e due t2))) st of
                          Inl err \<Rightarrow> (Next err, st)
                        | Inr (doc, st') \<Rightarrow>
                            (Json (ok_message 200 ''Task updated successfully'' (TaskData doc)), st')))))"

text \<open>\<^verbatim>\<open>DELETE /:id\<close>.\<close>

definition delete_task :: "object_id \<Rightarrow> object_id \<Rightarrow> store \<Rightarrow> outcome \<times> store" where
  "delete_task c i st =
     (case Task_findOneAndDelete i c st of
        (None, st') \<Rightarrow> (Json not_found, st')
      | (Some t, st') \<Rightarrow> (Json (ok_message 200 ''Task deleted successfully'' NoData), st'))"

text \<open>\<^verbatim>\<open>PATCH /:id/toggle\<close>.\<close>

definition toggle_task :: "env \<Rightarrow> object_id \<Rightarrow> object_id \<Rightarrow> store \<Rightarrow> outcome \<times> store" where
  "toggle_task e c i st =
     (case Task_findOne i c st of
        None \<Rightarrow> (Json not_found, st)
      | Some t \<Rightarrow>
          (case task_save e (t\<lparr>completed := JBool (\<not> truthy (completed t))\<rparr>) st of
             Inl err \<Rightarrow> (Next err, st)
           | Inr (doc, st') \<Rightarrow>
               (Json (ok_message 200
                   (''Task marked as '' @ (if truthy (completed doc) then ''completed'' else ''incomplete''))
                   (TaskData doc)), st')))"

subsection \<open>The store's invariant\<close>

text \<open>
  Identifiers are unique and below \<open>next_id\<close>, and no stored task carries the Invalid
  Date. The empty store satisfies this, and every handler preserves it (shown below).
\<close>

definition wf_store :: "store \<Rightarrow> bool" where
  "wf_store st =
     (distinct (map task_id (tasks st))
      \<and> (\<forall>t \<in> set (tasks st). task_id t < next_id st \<and> dueDate t \<noteq> Some InvalidDate))"

text \<open>The tasks a list request returns.\<close>

definition listed :: "object_id \<Rightarrow> query \<Rightarrow> store \<Rightarrow> task list" where
  "listed c q st = sort_tasks (sort_field q) (sort_order q) (Task_find (build_filter c q) st)"

subsection \<open>Example data\<close>

text \<open>
  An environment whose \<^verbatim>\<open>Date\<close> constructor reads a number as an instant, and a
  store with one task, owned by user 1.
\<close>

definition empty_store :: store where
  "empty_store = \<lparr>tasks = [], next_id = 0\<rparr>"

definition example_env :: env where
  "example_env =
     \<lparr>new_Date = (\<lambda>v. case v of JNum n \<Rightarrow> Instant n | _ \<Rightarrow> InvalidDate),
      now = 1000, default_priority = JStr ''medium''\<rparr>"

definition example_task :: task where
  "example_task =
     \<lparr>task_id = 0, title = ''Buy milk'', description = None, dueDate = None,
      priority = JStr ''high'', completed = JBool False, user = 1,
      createdAt = 10, updatedAt = 10\<rparr>"

definition example_store :: store where
  "example_store = \<lparr>tasks = [example_task], next_id = 1\<rparr>"

definition created_task :: task where
  "created_task =
     \<lparr>task_id = 1, title = ''x'', description = None, dueDate = None,
      priority = JStr ''medium'', completed = JBool False, user = 1,
      createdAt = 1000, updatedAt = 1000\<rparr>"

text \<open>
  The example task after \<^verbatim>\<open>PUT\<close> with \<^verbatim>\<open>{completed: null}\<close>, and after one and
  two toggles.
\<close>

definition null_flag_task :: task where
  "null_flag_task = example_task\<lparr>completed := JNull, updatedAt := 1000\<rparr>"

definition toggled_once :: task where
  "toggled_once = example_task\<lparr>completed := JBool True, updatedAt := 1000\<rparr>"

definition toggled_twice :: task where
  "toggled_twice = example_task\<lparr>completed := JBool False, updatedAt := 1000\<rparr>"

subsection \<open>The handlers over a store that checks the title\<close>


text \<open>
  The three handlers that save a document, with the store's save as the parameter
  \<open>sv\<close>: the code of \<open>create_task\<close>, \<open>update_task\<close> and \<open>toggle_task\<close>, which are
  these at \<open>task_save\<close>.
\<close>

definition create_task_on ::
  "(env \<Rightarrow> task \<Rightarrow> store \<Rightarrow> error + (task \<times> store)) \<Rightarrow>
   env \<Rightarrow> object_id \<Rightarrow> body \<Rightarrow> store \<Rightarrow> outcome \<times> store" where
  "create_task_on sv e c b st =
     (let ttl = lookup b ''title''; desc = lookup b ''description'';
          due = lookup b ''dueDate''; prio = lookup b ''priority''
      in if \<not> truthy ttl then (Json title_required, st)
         else case js_trim ttl of
           Inl err \<Rightarrow> (Next err, st)
         | Inr s \<Rightarrow>
             if s = [] then (Json title_required, st)
             else case trim_if_given desc of
               Inl err \<Rightarrow> (Next err, st)
             | Inr d \<Rightarrow>
                 let td = \<lparr>td_title = s, td_user = c, td_description = d,
                           td_dueDate = (if truthy due then Some (new_Date e due) else None),
                           td_priority = (if truthy prio then Some prio else None)\<rparr>;
                     (doc, st1) = new_Task e td st
                 in case sv e doc st1 of
                      Inl err \<Rightarrow> (Next err, st1)
                    | Inr (doc', st2) \<Rightarrow>
                        (Json (ok_message 201 ''Task created successfully'' (TaskData doc')), st2))"

definition update_task_on ::
  "(env \<Rightarrow> task \<Rightarrow> store \<Rightarrow> error + (task \<times> store)) \<Rightarrow>
   env \<Rightarrow> object_id \<Rightarrow> object_id \<Rightarrow> body \<Rightarrow> store \<Rightarrow> outcome \<times> store" where
  "update_task_on sv e c i b st =
     (let ttl = lookup b ''title''; desc = lookup b ''description'';
          due = lookup b ''dueDate''; prio = lookup b ''priority'';
          comp = lookup b ''completed''
      in case Task_findOne i c st of
           None \<Rightarrow> (Json not_found, st)
         | Some t \<Rightarrow>
             (case set_title ttl t of
                Inl err \<Rightarrow> (Next err, st)
              | Inr t1 \<Rightarrow>
                  (case set_description desc t1 of
                     Inl err \<Rightarrow> (Next err, st)
                   | Inr t2 \<Rightarrow>
                       (case sv e (set_completed comp (set_priority prio (set_dueDate e due t2))) st of
                          Inl err \<Rightarrow> (Next err, st)
                        | Inr (doc, st') \<Rightarrow>
                            (Json (ok_message 200 ''Task updated successfully'' (TaskData doc)), st')))))"

definition toggle_task_on ::
  "(env \<Rightarrow> task \<Rightarrow> store \<Rightarrow> error + (task \<times> store)) \<Rightarrow>
   env \<Rightarrow> object_id \<Rightarrow> object_id \<Rightarrow> store \<Rightarrow> outcome \<times> store" where
  "toggle_task_on sv e c i st =
     (case Task_findOne i c st of
        None \<Rightarrow> (Json not_found, st)
      | Some t \<Rightarrow>
          (case sv e (t\<lparr>completed := JBool (\<not> truthy (completed t))\<rparr>) st of
             Inl err \<Rightarrow> (Next err, st)
           | Inr (doc, st') \<Rightarrow>
               (Json (ok_message 200
                   (''Task marked as '' @ (if truthy (completed doc) then ''completed'' else ''incomplete''))
                   (TaskData doc)), st')))"


section \<open>The store operations\<close>

lemma findOne_None_iff:
  "Task_findOne i c st = None \<longleftrightarrow> (\<forall>t \<in> set (tasks st). \<not> (task_id t = i \<and> user t = c))"
  by (auto simp: Task_findOne_def find_None_iff)

lemma findOne_SomeD:
  "Task_findOne i c st = Some t \<Longrightarrow> t \<in> set (tasks st) \<and> task_id t = i \<and> user t = c"
  by (auto simp: Task_findOne_def find_Some_iff)

lemma remove_first_none: "\<forall>x \<in> set xs. \<not> P x \<Longrightarrow> remove_first P xs = xs"
  by (induction xs) auto

lemma set_remove_first_subset: "set (remove_first P xs) \<subseteq> set xs"
  by (induction xs) auto

lemma find_replace_doc:
  assumes "P d" and same: "\<And>x. P x \<Longrightarrow> task_id x = task_id d"
  shows "find P (replace_doc d ts) = Some d"
proof (induction ts)
  case Nil
  show ?case using assms(1) by simp
next
  case (Cons t ts)
  show ?case
  proof (cases "task_id t = task_id d")
    case True
    then show ?thesis using assms(1) by simp
  next
    case False
    with same have "\<not> P t" by blast
    with False Cons.IH show ?thesis by simp
  qed
qed

lemma findOne_replace_doc:
  "task_id d = i \<Longrightarrow> user d = c \<Longrightarrow>
   Task_findOne i c (st\<lparr>tasks := replace_doc d (tasks st)\<rparr>) = Some d"
  unfolding Task_findOne_def by (simp, rule find_replace_doc) simp_all

lemma set_replace_doc_ids:
  "task_id ` set (replace_doc d ts) = insert (task_id d) (task_id ` set ts)"
  by (induction ts) auto

lemma set_replace_doc_subset: "set (replace_doc d ts) \<subseteq> insert d (set ts)"
  by (induction ts) auto

lemma replace_doc_mem: "d \<in> set (replace_doc d ts)"
  by (induction ts) auto

lemma task_save_mem: "task_save e d st = Inr (d', st') \<Longrightarrow> d' \<in> set (tasks st')"
  by (auto simp: task_save_def Let_def replace_doc_mem split: if_splits)

lemma distinct_map_head:
  assumes "distinct (map f (x # xs))" and "y \<in> set xs"
  shows "f y \<noteq> f x"
proof
  assume "f y = f x"
  with assms(2) have "f x \<in> f ` set xs" by (metis imageI)
  with assms(1) show False by simp
qed

lemma distinct_map_head_notin:
  assumes "distinct (map f (x # xs))"
  shows "x \<notin> set xs"
  using distinct_map_head [OF assms] by blast

lemma distinct_replace_doc:
  "distinct (map task_id ts) \<Longrightarrow> distinct (map task_id (replace_doc d ts))"
proof (induction ts)
  case Nil
  then show ?case by simp
next
  case (Cons t ts)
  show ?case
  proof (cases "task_id t = task_id d")
    case True
    with Cons.prems show ?thesis by simp
  next
    case False
    have "task_id t \<notin> task_id ` set (replace_doc d ts)"
      using Cons.prems False by (simp add: set_replace_doc_ids)
    with Cons False show ?thesis by simp
  qed
qed

lemma set_replace_doc_distinct:
  "distinct (map task_id ts) \<Longrightarrow> t \<in> set ts \<Longrightarrow> task_id t = task_id d \<Longrightarrow>
   set (replace_doc d ts) = insert d (set ts - {t})"
proof (induction ts)
  case Nil
  then show ?case by simp
next
  case (Cons x xs)
  note hd = distinct_map_head [OF Cons.prems(1)]
  show ?case
  proof (cases "task_id x = task_id d")
    case True
    have tx: "t = x"
      using hd [of t] Cons.prems(2,3) True by auto
    have "x \<notin> set xs"
      by (rule distinct_map_head_notin [OF Cons.prems(1)])
    then have "insert x (set xs) - {x} = set xs" by blast
    with True tx show ?thesis by simp
  next
    case False
    with Cons.prems(3) have ne: "t \<noteq> x" by auto
    with Cons.prems(2) have tin: "t \<in> set xs" by simp
    from Cons.prems(1) have "distinct (map task_id xs)" by simp
    from Cons.IH [OF this tin Cons.prems(3)]
    have ih: "set (replace_doc d xs) = insert d (set xs - {t})" .
    have "insert x (insert d (set xs - {t})) = insert d (insert x (set xs) - {t})"
      using ne by blast
    with False ih show ?thesis by simp
  qed
qed

lemma remove_first_distinct:
  "distinct (map task_id ts) \<Longrightarrow> find (\<lambda>t. task_id t = i \<and> P t) ts = Some t \<Longrightarrow>
   set (remove_first (\<lambda>t. task_id t = i \<and> P t) ts) = set ts - {t}
   \<and> (\<forall>u \<in> set (remove_first (\<lambda>t. task_id t = i \<and> P t) ts). task_id u \<noteq> i)"
proof (induction ts)
  case Nil
  then show ?case by simp
next
  case (Cons x xs)
  note hd = distinct_map_head [OF Cons.prems(1)]
  have xn: "x \<notin> set xs"
    by (rule distinct_map_head_notin [OF Cons.prems(1)])
  show ?case
  proof (cases "task_id x = i \<and> P x")
    case True
    with Cons.prems(2) have tx: "t = x" by simp
    have a: "insert x (set xs) - {x} = set xs" using xn by blast
    have b: "\<forall>u \<in> set xs. task_id u \<noteq> i"
    proof
      fix u
      assume "u \<in> set xs"
      from hd [OF this] True show "task_id u \<noteq> i" by simp
    qed
    from True tx a b show ?thesis by simp
  next
    case False
    with Cons.prems(2) have f: "find (\<lambda>t. task_id t = i \<and> P t) xs = Some t" by simp
    then have tin: "t \<in> set xs" and ti: "task_id t = i" by (auto simp: find_Some_iff)
    have xi: "task_id x \<noteq> i" using hd [OF tin] ti by simp
    from Cons.prems(1) have "distinct (map task_id xs)" by simp
    from Cons.IH [OF this f]
    have ih1: "set (remove_first (\<lambda>t. task_id t = i \<and> P t) xs) = set xs - {t}"
      and ih2: "\<forall>u \<in> set (remove_first (\<lambda>t. task_id t = i \<and> P t) xs). task_id u \<noteq> i"
      by simp_all
    from xi ti have ne: "x \<noteq> t" by auto
    from False ih1 ih2 xi ne show ?thesis by auto
  qed
qed

lemma distinct_remove_first:
  "distinct (map f xs) \<Longrightarrow> distinct (map f (remove_first P xs))"
proof (induction xs)
  case Nil
  then show ?case by simp
next
  case (Cons x xs)
  have "f ` set (remove_first P xs) \<subseteq> f ` set xs"
    by (rule image_mono) (rule set_remove_first_subset)
  with Cons show ?case by auto
qed

subsection \<open>Sorting keeps the tasks\<close>

lemma set_insert_by: "set (insert_by le x xs) = insert x (set xs)"
  by (induction xs) auto

lemma set_sort_by: "set (sort_by le xs) = set xs"
  by (induction xs) (simp_all add: set_insert_by)

lemma length_insert_by: "length (insert_by le x xs) = Suc (length xs)"
  by (induction xs) auto

lemma length_sort_by: "length (sort_by le xs) = length xs"
  by (induction xs) (simp_all add: length_insert_by)

lemma set_sort_tasks: "set (sort_tasks k dir ts) = set ts"
  by (simp add: sort_tasks_def set_sort_by)

lemma length_sort_tasks: "length (sort_tasks k dir ts) = length ts"
  by (simp add: sort_tasks_def length_sort_by)

lemma list_tasks_listed:
  "list_tasks c q st =
     (Json \<lparr>status = 200, success = True, message = None,
            count = Some (length (listed c q st)), data = TaskList (listed c q st)\<rparr>, st)"
  by (simp add: list_tasks_def listed_def Let_def)

lemma set_listed:
  "set (listed c q st) = {t \<in> set (tasks st). matches (build_filter c q) t}"
  by (simp add: listed_def set_sort_tasks Task_find_def)

subsection \<open>A lookup that finds nothing\<close>

lemma get_task_None: "Task_findOne i c st = None \<Longrightarrow> get_task c i st = (Json not_found, st)"
  by (simp add: get_task_def)

lemma update_task_None:
  "Task_findOne i c st = None \<Longrightarrow> update_task e c i b st = (Json not_found, st)"
  by (simp add: update_task_def)

lemma toggle_task_None:
  "Task_findOne i c st = None \<Longrightarrow> toggle_task e c i st = (Json not_found, st)"
  by (simp add: toggle_task_def)

lemma delete_task_None:
  assumes "Task_findOne i c st = None"
  shows "delete_task c i st = (Json not_found, st)"
proof -
  from assms have "\<forall>t \<in> set (tasks st). \<not> (task_id t = i \<and> user t = c)"
    by (simp add: findOne_None_iff)
  then have "remove_first (\<lambda>t. task_id t = i \<and> user t = c) (tasks st) = tasks st"
    by (rule remove_first_none)
  with assms show ?thesis
    by (simp add: delete_task_def Task_findOneAndDelete_def)
qed

subsection \<open>The handlers preserve the invariant\<close>

lemma wf_empty_store: "wf_store empty_store"
  by (simp add: wf_store_def empty_store_def)

lemma wf_example_store: "wf_store example_store"
  by (simp add: wf_store_def example_store_def example_task_def)

lemma findOne_example: "Task_findOne 0 1 example_store = Some example_task"
  by (simp add: Task_findOne_def example_store_def example_task_def)

lemma wf_replace_doc:
  assumes "wf_store st" and "task_id d < next_id st" and "dueDate d \<noteq> Some InvalidDate"
  shows "wf_store (st\<lparr>tasks := replace_doc d (tasks st)\<rparr>)"
proof -
  from assms(1) have "distinct (map task_id (replace_doc d (tasks st)))"
    by (simp add: wf_store_def distinct_replace_doc)
  moreover have "\<forall>t \<in> set (replace_doc d (tasks st)).
      task_id t < next_id st \<and> dueDate t \<noteq> Some InvalidDate"
  proof
    fix t
    assume "t \<in> set (replace_doc d (tasks st))"
    with set_replace_doc_subset [of d "tasks st"] have "t = d \<or> t \<in> set (tasks st)" by blast
    with assms show "task_id t < next_id st \<and> dueDate t \<noteq> Some InvalidDate"
      by (auto simp: wf_store_def)
  qed
  ultimately show ?thesis by (simp add: wf_store_def)
qed

lemma wf_stored_task:
  "wf_store st \<Longrightarrow> Task_findOne i c st = Some t \<Longrightarrow>
   task_id t < next_id st \<and> dueDate t \<noteq> Some InvalidDate"
  using findOne_SomeD [of i c st t] by (auto simp: wf_store_def)

lemma wf_next_id: "wf_store st \<Longrightarrow> wf_store (st\<lparr>next_id := Suc (next_id st)\<rparr>)"
  by (auto simp: wf_store_def less_Suc_eq)

lemma wf_task_save:
  assumes "wf_store st" and "task_id d < next_id st" and "task_save e d st = Inr (d', st')"
  shows "wf_store st'"
proof -
  from assms(3) have due: "dueDate d \<noteq> Some InvalidDate"
    and d': "d' = d\<lparr>updatedAt := now e\<rparr>"
    and st': "st' = st\<lparr>tasks := replace_doc d' (tasks st)\<rparr>"
    by (auto simp: task_save_def Let_def split: if_splits)
  show ?thesis
    unfolding st' by (rule wf_replace_doc [OF assms(1)]) (simp_all add: d' assms(2) due)
qed

lemma toggle_step:
  assumes wf: "wf_store st" and found: "Task_findOne i c st = Some t"
    and t'_def: "t' = t\<lparr>completed := JBool (\<not> truthy (completed t)), updatedAt := now e\<rparr>"
    and st'_def: "st' = st\<lparr>tasks := replace_doc t' (tasks st)\<rparr>"
  shows "toggle_task e c i st =
           (Json (ok_message 200
              (''Task marked as '' @ (if truthy (completed t) then ''incomplete'' else ''completed''))
              (TaskData t')), st')"
    and "Task_findOne i c st' = Some t'"
    and "wf_store st'"
proof -
  from wf_stored_task [OF wf found]
  have lt: "task_id t < next_id st" and due: "dueDate t \<noteq> Some InvalidDate" by simp_all
  from findOne_SomeD [OF found] have id: "task_id t = i" and own: "user t = c" by simp_all
  from due show "toggle_task e c i st =
           (Json (ok_message 200
              (''Task marked as '' @ (if truthy (completed t) then ''incomplete'' else ''completed''))
              (TaskData t')), st')"
    by (simp add: toggle_task_def found task_save_def t'_def st'_def Let_def)
  show "Task_findOne i c st' = Some t'"
    unfolding st'_def by (rule findOne_replace_doc) (simp_all add: t'_def id own)
  show "wf_store st'"
    unfolding st'_def by (rule wf_replace_doc [OF wf]) (simp_all add: t'_def lt due)
qed

lemma wf_create_task:
  assumes "wf_store st"
  shows "wf_store (snd (create_task e c b st))"
proof -
  have a: "wf_store st1"
    if "new_Task e td st = (doc, st0)" and "task_save e doc st0 = Inr (doc', st1)"
    for td doc st0 doc' st1
  proof -
    from that(1) have st0: "st0 = st\<lparr>next_id := Suc (next_id st)\<rparr>"
      and id: "task_id doc = next_id st"
      by (auto simp: new_Task_def)
    from wf_next_id [OF assms] have w: "wf_store st0" by (simp add: st0)
    have "task_id doc < next_id st0" by (simp add: st0 id)
    from wf_task_save [OF w this that(2)] show ?thesis .
  qed
  have b: "wf_store st0" if "new_Task e td st = (doc, st0)" for td doc st0
    using that wf_next_id [OF assms] by (auto simp: new_Task_def)
  show ?thesis
    using assms a b
    by (auto simp: create_task_def Let_def split: sum.splits prod.splits)
qed

lemma set_title_id: "set_title v t = Inr t1 \<Longrightarrow> task_id t1 = task_id t"
  by (cases v) (auto simp: set_title_def)

lemma set_description_id: "set_description v t = Inr t1 \<Longrightarrow> task_id t1 = task_id t"
  by (cases v) (auto simp: set_description_def)

lemma wf_update_task:
  assumes "wf_store st"
  shows "wf_store (snd (update_task e c i b st))"
proof (cases "Task_findOne i c st")
  case None
  with assms show ?thesis by (simp add: update_task_None)
next
  case (Some t)
  from wf_stored_task [OF assms Some] have lt: "task_id t < next_id st" by simp
  have "wf_store st'"
    if "set_title (lookup b ''title'') t = Inr t1"
      and "set_description (lookup b ''description'') t1 = Inr t2"
      and "task_save e (set_completed (lookup b ''completed'')
             (set_priority (lookup b ''priority'') (set_dueDate e (lookup b ''dueDate'') t2))) st
           = Inr (doc, st')"
    for t1 t2 doc st'
  proof (rule wf_task_save [OF assms _ that(3)])
    show "task_id (set_completed (lookup b ''completed'')
             (set_priority (lookup b ''priority'') (set_dueDate e (lookup b ''dueDate'') t2)))
          < next_id st"
      using lt set_title_id [OF that(1)] set_description_id [OF that(2)]
      by (simp add: set_completed_def set_priority_def set_dueDate_def)
  qed
  with assms Some show ?thesis
    by (auto simp: update_task_def split: sum.splits)
qed

lemma wf_toggle_task:
  assumes "wf_store st"
  shows "wf_store (snd (toggle_task e c i st))"
proof (cases "Task_findOne i c st")
  case None
  with assms show ?thesis by (simp add: toggle_task_None)
next
  case (Some t)
  from toggle_step [OF assms Some refl refl, of e] show ?thesis by simp
qed

lemma wf_delete_task:
  assumes "wf_store st"
  shows "wf_store (snd (delete_task c i st))"
proof -
  let ?ts = "remove_first (\<lambda>t. task_id t = i \<and> user t = c) (tasks st)"
  from assms have "distinct (map task_id ?ts)"
    by (simp add: wf_store_def distinct_remove_first)
  moreover have "\<forall>t \<in> set ?ts. task_id t < next_id st \<and> dueDate t \<noteq> Some InvalidDate"
    using assms set_remove_first_subset [of "\<lambda>t. task_id t = i \<and> user t = c" "tasks st"]
    by (auto simp: wf_store_def)
  ultimately have "wf_store (st\<lparr>tasks := ?ts\<rparr>)" by (simp add: wf_store_def)
  then show ?thesis
    by (simp add: delete_task_def Task_findOneAndDelete_def split: option.split)
qed

subsection \<open>The outcomes of create\<close>

lemma create_task_success:
  assumes "create_task e c b st = (Json r, st')" and "success r"
  shows "\<exists>doc. r = ok_message 201 ''Task created successfully'' (TaskData doc)
           \<and> user doc = c \<and> task_id doc = next_id st
           \<and> title doc \<noteq> [] \<and> js_trim (lookup b ''title'') = Inr (title doc)
           \<and> dueDate doc \<noteq> Some InvalidDate
           \<and> st' = \<lparr>tasks = replace_doc doc (tasks st), next_id = Suc (next_id st)\<rparr>"
  using assms
  by (auto simp: create_task_def Let_def new_Task_def task_save_def title_required_def
      trim_if_given_def split: if_splits sum.splits)

lemma create_task_rejected:
  assumes "\<not> truthy (lookup b ''title'') \<or> (\<exists>s. lookup b ''title'' = JStr s \<and> trim s = [])"
  shows "create_task e c b st = (Json title_required, st)"
  using assms by (auto simp: create_task_def Let_def)

lemma create_task_accepted:
  assumes "\<not> (\<not> truthy (lookup b ''title'') \<or> (\<exists>s. lookup b ''title'' = JStr s \<and> trim s = []))"
  shows "(\<exists>err st1. create_task e c b st = (Next err, st1))
       \<or> (\<exists>doc st1. create_task e c b st =
             (Json (ok_message 201 ''Task created successfully'' (TaskData doc)), st1)
           \<and> doc \<in> set (tasks st1))"
proof (cases "lookup b ''title''")
  case (JStr s)
  with assms have ne: "s \<noteq> []" "trim s \<noteq> []" by auto
  show ?thesis
  proof (cases "trim_if_given (lookup b ''description'')")
    case (Inl err)
    with JStr ne show ?thesis by (simp add: create_task_def)
  next
    case (Inr d)
    obtain doc st1 where nt: "new_Task e
        \<lparr>td_title = trim s, td_user = c, td_description = d,
         td_dueDate = (if truthy (lookup b ''dueDate'')
                       then Some (new_Date e (lookup b ''dueDate'')) else None),
         td_priority = (if truthy (lookup b ''priority'')
                        then Some (lookup b ''priority'') else None)\<rparr> st = (doc, st1)"
      by (cases "new_Task e
        \<lparr>td_title = trim s, td_user = c, td_description = d,
         td_dueDate = (if truthy (lookup b ''dueDate'')
                       then Some (new_Date e (lookup b ''dueDate'')) else None),
         td_priority = (if truthy (lookup b ''priority'')
                        then Some (lookup b ''priority'') else None)\<rparr> st") blast
    show ?thesis
    proof (cases "task_save e doc st1")
      case (Inl err)
      with JStr ne Inr nt show ?thesis by (simp add: create_task_def)
    next
      case (Inr res)
      obtain doc' st2 where res: "res = (doc', st2)" by (cases res) blast
      with Inr have "doc' \<in> set (tasks st2)" by (simp add: task_save_mem)
      with JStr ne \<open>trim_if_given (lookup b ''description'') = Inr d\<close> nt Inr res
      show ?thesis by (auto simp: create_task_def)
    qed
  qed
qed (use assms in \<open>simp_all add: create_task_def\<close>)

subsection \<open>Titles\<close>

text \<open>
  On the store that checks nothing but the date, the update handler hands the blank
  title to the save and the save stores it: the handler has no guard of its own.
\<close>

lemma update_blank_title:
  "update_task example_env 1 0 [''title'' \<mapsto> JStr ''   ''] example_store =
     (Json (ok_message 200 ''Task updated successfully''
        (TaskData (example_task\<lparr>title := '''', updatedAt := 1000\<rparr>))),
      \<lparr>tasks = [example_task\<lparr>title := '''', updatedAt := 1000\<rparr>], next_id = 1\<rparr>)
   \<and> Task_findOne 0 1 example_store = Some example_task
   \<and> trim ''   '' = ''''"
  by (simp add: update_task_def lookup_def Task_findOne_def example_store_def example_task_def
      example_env_def set_title_def set_description_def set_dueDate_def set_priority_def
      set_completed_def task_save_def trim_def is_space_def Let_def)

lemma handlers_on_task_save:
  "create_task_on task_save e c b st = create_task e c b st"
  "update_task_on task_save e c i b st = update_task e c i b st"
  "toggle_task_on task_save e c i st = toggle_task e c i st"
  by (simp_all add: create_task_on_def create_task_def update_task_on_def update_task_def
      toggle_task_on_def toggle_task_def)














section \<open>The claims\<close>

text \<open>
  Claim C1 (ownership isolation). When a task with identifier \<open>i\<close> exists but none with
  that identifier belongs to the caller \<open>c\<close>, each of get, update (with any body),
  delete and toggle answers 404 with \<open>success = False\<close> and leaves the store as it was:
  the same answer as on a store \<open>st0\<close> that holds no task with identifier \<open>i\<close> at all.
\<close>

theorem ownership_isolation:
  assumes "t \<in> set (tasks st)" and "task_id t = i"
    and foreign: "\<forall>u \<in> set (tasks st). task_id u = i \<longrightarrow> user u \<noteq> c"
    and absent: "\<forall>u \<in> set (tasks st0). task_id u \<noteq> i"
  shows "get_task c i st = (Json not_found, st)
       \<and> update_task e c i b st = (Json not_found, st)
       \<and> delete_task c i st = (Json not_found, st)
       \<and> toggle_task e c i st = (Json not_found, st)
       \<and> get_task c i st0 = (Json not_found, st0)
       \<and> update_task e c i b st0 = (Json not_found, st0)
       \<and> delete_task c i st0 = (Json not_found, st0)
       \<and> toggle_task e c i st0 = (Json not_found, st0)
       \<and> status not_found = 404 \<and> success not_found = False"
proof -
  from foreign have a: "Task_findOne i c st = None"
    by (simp add: findOne_None_iff)
  from absent have b: "Task_findOne i c st0 = None"
    by (simp add: findOne_None_iff)
  show ?thesis
    by (simp add: get_task_None [OF a] update_task_None [OF a] delete_task_None [OF a]
        toggle_task_None [OF a] get_task_None [OF b] update_task_None [OF b]
        delete_task_None [OF b] toggle_task_None [OF b] not_found_def)
qed

text \<open>
  The example store holds one task, owned by user 1; user 2 asks for it, and for the
  same identifier on the empty store.
\<close>

theorem ownership_isolation_witness:
  "get_task 2 0 example_store = (Json not_found, example_store)
   \<and> update_task example_env 2 0 [''title'' \<mapsto> JStr ''mine''] example_store
       = (Json not_found, example_store)
   \<and> delete_task 2 0 example_store = (Json not_found, example_store)
   \<and> toggle_task example_env 2 0 example_store = (Json not_found, example_store)
   \<and> get_task 2 0 empty_store = (Json not_found, empty_store)
   \<and> delete_task 2 0 empty_store = (Json not_found, empty_store)"
proof -
  have a: "example_task \<in> set (tasks example_store)" by (simp add: example_store_def)
  have b: "task_id example_task = 0" by (simp add: example_task_def)
  have c: "\<forall>u \<in> set (tasks example_store). task_id u = 0 \<longrightarrow> user u \<noteq> 2"
    by (simp add: example_store_def example_task_def)
  have d: "\<forall>u \<in> set (tasks empty_store). task_id u \<noteq> 0" by (simp add: empty_store_def)
  from ownership_isolation [OF a b c d, of example_env "[''title'' \<mapsto> JStr ''mine'']"]
  show ?thesis by simp
qed

text \<open>
  Claim C2 (the owner of a created task). Whatever the body holds, a create that
  succeeds returns a task that is stored and whose owner is the caller: the handler
  reads only the keys title, description, dueDate and priority of the body.
\<close>

theorem create_owner_is_caller:
  assumes "create_task e c b st = (Json r, st')" and "success r"
  shows "\<exists>t. data r = TaskData t \<and> t \<in> set (tasks st') \<and> user t = c"
proof -
  from create_task_success [OF assms] obtain doc where
    "r = ok_message 201 ''Task created successfully'' (TaskData doc)" "user doc = c"
    "st' = \<lparr>tasks = replace_doc doc (tasks st), next_id = Suc (next_id st)\<rparr>"
    by blast
  then show ?thesis by (simp add: ok_message_def replace_doc_mem)
qed

text \<open>A body with a \<^verbatim>\<open>user\<close> key of its own: the task is still the caller's.\<close>

theorem create_owner_is_caller_witness:
  "create_task example_env 1 [''title'' \<mapsto> JStr '' x '', ''user'' \<mapsto> JNum 7] example_store
     = (Json (ok_message 201 ''Task created successfully'' (TaskData created_task)),
        \<lparr>tasks = [example_task, created_task], next_id = 2\<rparr>)
   \<and> (\<exists>t. data (ok_message 201 ''Task created successfully'' (TaskData created_task)) = TaskData t
         \<and> t \<in> set (tasks \<lparr>tasks = [example_task, created_task], next_id = 2\<rparr>)
         \<and> user t = 1)"
proof -
  have run: "create_task example_env 1 [''title'' \<mapsto> JStr '' x '', ''user'' \<mapsto> JNum 7] example_store
     = (Json (ok_message 201 ''Task created successfully'' (TaskData created_task)),
        \<lparr>tasks = [example_task, created_task], next_id = 2\<rparr>)"
    by (simp add: create_task_def lookup_def trim_def is_space_def trim_if_given_def
        new_Task_def task_save_def Let_def example_env_def example_store_def example_task_def
        created_task_def)
  have ok: "success (ok_message 201 ''Task created successfully'' (TaskData created_task))"
    by (simp add: ok_message_def)
  from run create_owner_is_caller [OF run ok] show ?thesis by (rule conjI)
qed



text \<open>
  Claim C4 as stated (400 if and only if the title is absent or trims to the empty
  string) fails: the title \<open>0\<close> is present and is no string, so it does not trim to
  anything, yet \<^verbatim>\<open>!title\<close> holds and the answer is 400.
\<close>

theorem create_falsy_title_counterexample:
  "create_task example_env 1 [''title'' \<mapsto> JNum 0] example_store = (Json title_required, example_store)
   \<and> status title_required = 400
   \<and> [''title'' \<mapsto> JNum 0] ''title'' = Some (JNum 0)
   \<and> js_trim (JNum 0) = Inl TypeError"
  by (simp add: create_task_def lookup_def title_required_def)

text \<open>
  Claim C4, amended. Create answers 400 exactly when the title is falsy (absent, null,
  false, 0 or the empty string) or is a string that trims to the empty string. A 400
  answer has \<open>success = False\<close> and leaves the store as it was; an answer with
  \<open>success = True\<close> has status 201 and carries the created task, which is stored.
\<close>

theorem create_validation:
  "((\<exists>r. fst (create_task e c b st) = Json r \<and> status r = 400)
      = (\<not> truthy (lookup b ''title'') \<or> (\<exists>s. lookup b ''title'' = JStr s \<and> trim s = [])))
   \<and> (\<forall>r. fst (create_task e c b st) = Json r \<and> status r = 400 \<longrightarrow>
         \<not> success r \<and> snd (create_task e c b st) = st)
   \<and> (\<forall>r. fst (create_task e c b st) = Json r \<and> success r \<longrightarrow>
         status r = 201 \<and> (\<exists>t. data r = TaskData t \<and> t \<in> set (tasks (snd (create_task e c b st)))))"
proof (cases "\<not> truthy (lookup b ''title'') \<or> (\<exists>s. lookup b ''title'' = JStr s \<and> trim s = [])")
  case True
  from create_task_rejected [OF True, of e c st] True show ?thesis
    by (simp add: title_required_def)
next
  case False
  from create_task_accepted [OF False, of e c st] False show ?thesis
    by (auto simp: ok_message_def)
qed

theorem create_validation_witness:
  "(\<exists>r. fst (create_task example_env 1 [''title'' \<mapsto> JStr ''   ''] example_store) = Json r
        \<and> status r = 400 \<and> \<not> success r)
   \<and> snd (create_task example_env 1 [''title'' \<mapsto> JStr ''   ''] example_store) = example_store
   \<and> (\<exists>r t. fst (create_task example_env 1 [''title'' \<mapsto> JStr '' x ''] example_store) = Json r
        \<and> success r \<and> status r = 201 \<and> data r = TaskData t
        \<and> t \<in> set (tasks (snd (create_task example_env 1 [''title'' \<mapsto> JStr '' x ''] example_store))))"
proof -
  let ?blank = "[''title'' \<mapsto> JStr ''   '']"
  let ?good = "[''title'' \<mapsto> JStr '' x '']"
  note blank = create_validation [of example_env 1 ?blank example_store]
  note good = create_validation [of example_env 1 ?good example_store]
  have "\<not> truthy (lookup ?blank ''title'')
      \<or> (\<exists>s. lookup ?blank ''title'' = JStr s \<and> trim s = [])"
    by (simp add: lookup_def trim_def is_space_def)
  with blank obtain r where r: "fst (create_task example_env 1 ?blank example_store) = Json r"
    "status r = 400"
    by blast
  with blank have r': "\<not> success r"
    "snd (create_task example_env 1 ?blank example_store) = example_store"
    by blast+
  have run: "fst (create_task example_env 1 ?good example_store)
      = Json (ok_message 201 ''Task created successfully'' (TaskData created_task))"
    by (simp add: create_task_def lookup_def trim_def is_space_def trim_if_given_def
        new_Task_def task_save_def Let_def example_env_def example_store_def example_task_def
        created_task_def)
  have ok: "success (ok_message 201 ''Task created successfully'' (TaskData created_task))"
    by (simp add: ok_message_def)
  from good run ok
  have "status (ok_message 201 ''Task created successfully'' (TaskData created_task)) = 201
      \<and> (\<exists>t. data (ok_message 201 ''Task created successfully'' (TaskData created_task)) = TaskData t
           \<and> t \<in> set (tasks (snd (create_task example_env 1 ?good example_store))))"
    by blast
  with run ok r r' show ?thesis by blast
qed

text \<open>
  Claim C5 as stated (every key that is present, null included, is overwritten) fails:
  with \<^verbatim>\<open>{title: "Tea", description: null}\<close> both keys are present, but
  \<^verbatim>\<open>description.trim()\<close> raises before the save, so the stored task keeps its
  title and its description.
\<close>

theorem update_null_description_counterexample:
  "update_task example_env 1 0 [''title'' \<mapsto> JStr ''Tea'', ''description'' \<mapsto> JNull] example_store
     = (Next TypeError, example_store)
   \<and> Task_findOne 0 1 example_store = Some example_task
   \<and> title example_task = ''Buy milk''"
  by (simp add: update_task_def lookup_def Task_findOne_def example_store_def example_task_def
      set_title_def set_description_def trim_def is_space_def)

text \<open>
  Claim C5, amended. On an existing task of the caller, when a title and a description
  that are present are strings and a truthy due date parses, update answers 200 with
  the stored task, in which every field whose key is absent keeps its value, the
  title and the description that are present are trimmed, a due date that is present is
  the parsed date or null when the value is falsy, and a priority and a completed
  flag that are present are stored as they are. Identifier, owner and creation time
  are unchanged, and no other task of the store changes.
\<close>

theorem update_partial_replace:
  assumes wf: "wf_store st" and found: "Task_findOne i c st = Some t"
    and ttl: "lookup b ''title'' = JUndefined \<or> (\<exists>s. lookup b ''title'' = JStr s)"
    and desc: "lookup b ''description'' = JUndefined \<or> (\<exists>s. lookup b ''description'' = JStr s)"
    and due: "truthy (lookup b ''dueDate'') \<longrightarrow> new_Date e (lookup b ''dueDate'') \<noteq> InvalidDate"
  shows "\<exists>t'. update_task e c i b st =
           (Json (ok_message 200 ''Task updated successfully'' (TaskData t')),
            st\<lparr>tasks := replace_doc t' (tasks st)\<rparr>)
       \<and> Task_findOne i c (st\<lparr>tasks := replace_doc t' (tasks st)\<rparr>) = Some t'
       \<and> set (replace_doc t' (tasks st)) = insert t' (set (tasks st) - {t})
       \<and> title t' = (case lookup b ''title'' of JStr s \<Rightarrow> trim s | _ \<Rightarrow> title t)
       \<and> description t' =
           (case lookup b ''description'' of JStr s \<Rightarrow> Some (trim s) | _ \<Rightarrow> description t)
       \<and> dueDate t' =
           (if lookup b ''dueDate'' = JUndefined then dueDate t
            else if truthy (lookup b ''dueDate'') then Some (new_Date e (lookup b ''dueDate''))
            else None)
       \<and> priority t' =
           (if lookup b ''priority'' = JUndefined then priority t else lookup b ''priority'')
       \<and> completed t' =
           (if lookup b ''completed'' = JUndefined then completed t else lookup b ''completed'')
       \<and> task_id t' = task_id t \<and> user t' = user t \<and> createdAt t' = createdAt t"
proof -
  define t1 where "t1 = (case lookup b ''title'' of JStr s \<Rightarrow> t\<lparr>title := trim s\<rparr> | _ \<Rightarrow> t)"
  define t2 where
    "t2 = (case lookup b ''description'' of JStr s \<Rightarrow> t1\<lparr>description := Some (trim s)\<rparr> | _ \<Rightarrow> t1)"
  define t5 where
    "t5 = set_completed (lookup b ''completed'')
            (set_priority (lookup b ''priority'') (set_dueDate e (lookup b ''dueDate'') t2))"
  define t' where "t' = t5\<lparr>updatedAt := now e\<rparr>"
  from wf_stored_task [OF wf found]
  have lt: "task_id t < next_id st" and old_due: "dueDate t \<noteq> Some InvalidDate" by simp_all
  from findOne_SomeD [OF found]
  have mem: "t \<in> set (tasks st)" and id: "task_id t = i" and own: "user t = c" by simp_all
  from ttl have s1: "set_title (lookup b ''title'') t = Inr t1"
    by (auto simp: set_title_def t1_def)
  from desc have s2: "set_description (lookup b ''description'') t1 = Inr t2"
    by (auto simp: set_description_def t2_def)
  have fields: "task_id t' = task_id t" "user t' = user t" "createdAt t' = createdAt t"
    "title t' = (case lookup b ''title'' of JStr s \<Rightarrow> trim s | _ \<Rightarrow> title t)"
    "description t' =
       (case lookup b ''description'' of JStr s \<Rightarrow> Some (trim s) | _ \<Rightarrow> description t)"
    "dueDate t' =
       (if lookup b ''dueDate'' = JUndefined then dueDate t
        else if truthy (lookup b ''dueDate'') then Some (new_Date e (lookup b ''dueDate''))
        else None)"
    "priority t' =
       (if lookup b ''priority'' = JUndefined then priority t else lookup b ''priority'')"
    "completed t' =
       (if lookup b ''completed'' = JUndefined then completed t else lookup b ''completed'')"
    by (simp_all add: t'_def t5_def t2_def t1_def set_completed_def set_priority_def
        set_dueDate_def split: jsval.split)
  have "dueDate t' \<noteq> Some InvalidDate"
    using due old_due by (simp add: fields)
  then have ok: "dueDate t5 \<noteq> Some InvalidDate" by (simp add: t'_def)
  then have save: "task_save e t5 st = Inr (t', st\<lparr>tasks := replace_doc t' (tasks st)\<rparr>)"
    by (simp add: task_save_def t'_def Let_def)
  have upd: "update_task e c i b st =
      (Json (ok_message 200 ''Task updated successfully'' (TaskData t')),
       st\<lparr>tasks := replace_doc t' (tasks st)\<rparr>)"
    by (simp add: update_task_def found s1 s2 save [unfolded t5_def])
  have id': "task_id t' = i" and own': "user t' = c"
    by (simp_all add: fields id own)
  have again: "Task_findOne i c (st\<lparr>tasks := replace_doc t' (tasks st)\<rparr>) = Some t'"
    by (rule findOne_replace_doc [OF id' own'])
  from wf have "distinct (map task_id (tasks st))" by (simp add: wf_store_def)
  from set_replace_doc_distinct [OF this mem, of t']
  have others: "set (replace_doc t' (tasks st)) = insert t' (set (tasks st) - {t})"
    by (simp add: id' id)
  show ?thesis
    by (rule exI [of _ t']) (simp add: upd again others fields)
qed

theorem update_partial_replace_witness:
  "\<exists>t'. update_task example_env 1 0
            [''title'' \<mapsto> JStr '' Tea '', ''completed'' \<mapsto> JBool True] example_store
          = (Json (ok_message 200 ''Task updated successfully'' (TaskData t')),
             example_store\<lparr>tasks := replace_doc t' (tasks example_store)\<rparr>)
      \<and> title t' = ''Tea'' \<and> completed t' = JBool True
      \<and> description t' = description example_task
      \<and> dueDate t' = dueDate example_task
      \<and> priority t' = priority example_task
      \<and> user t' = user example_task"
proof -
  let ?b = "[''title'' \<mapsto> JStr '' Tea '', ''completed'' \<mapsto> JBool True]"
  have ttl: "lookup ?b ''title'' = JUndefined \<or> (\<exists>s. lookup ?b ''title'' = JStr s)"
    by (simp add: lookup_def)
  have desc: "lookup ?b ''description'' = JUndefined \<or> (\<exists>s. lookup ?b ''description'' = JStr s)"
    by (simp add: lookup_def)
  have due: "truthy (lookup ?b ''dueDate'')
      \<longrightarrow> new_Date example_env (lookup ?b ''dueDate'') \<noteq> InvalidDate"
    by (simp add: lookup_def)
  from update_partial_replace [OF wf_example_store findOne_example ttl desc due]
  obtain t' where
    "update_task example_env 1 0 ?b example_store
       = (Json (ok_message 200 ''Task updated successfully'' (TaskData t')),
          example_store\<lparr>tasks := replace_doc t' (tasks example_store)\<rparr>)"
    "title t' = (case lookup ?b ''title'' of JStr s \<Rightarrow> trim s | _ \<Rightarrow> title example_task)"
    "description t' =
       (case lookup ?b ''description'' of JStr s \<Rightarrow> Some (trim s) | _ \<Rightarrow> description example_task)"
    "dueDate t' =
       (if lookup ?b ''dueDate'' = JUndefined then dueDate example_task
        else if truthy (lookup ?b ''dueDate'')
          then Some (new_Date example_env (lookup ?b ''dueDate'')) else None)"
    "priority t' =
       (if lookup ?b ''priority'' = JUndefined then priority example_task
        else lookup ?b ''priority'')"
    "completed t' =
       (if lookup ?b ''completed'' = JUndefined then completed example_task
        else lookup ?b ''completed'')"
    "user t' = user example_task"
    by blast
  then show ?thesis
    by (intro exI [of _ t']) (simp add: lookup_def trim_def is_space_def)
qed

text \<open>
  Claim C6 (the completed filter of list). Without \<^verbatim>\<open>completed\<close>, or with
  \<^verbatim>\<open>completed=all\<close>, list returns the caller's tasks of both completion states
  (those the priority filter lets through). With any other value it returns exactly
  those of them whose completed flag is the boolean \<^verbatim>\<open>completed === 'true'\<close>.
\<close>

theorem list_completed_filter:
  "\<exists>ts. list_tasks c q st =
          (Json \<lparr>status = 200, success = True, message = None,
                 count = Some (length ts), data = TaskList ts\<rparr>, st)
      \<and> (q ''completed'' = None \<or> q ''completed'' = Some ''all'' \<longrightarrow>
           set ts = {t \<in> set (tasks st). user t = c
              \<and> (case flt_priority (build_filter c q) of
                    None \<Rightarrow> True | Some p \<Rightarrow> priority t = JStr p)})
      \<and> (\<forall>v. q ''completed'' = Some v \<and> v \<noteq> ''all'' \<longrightarrow>
           set ts = {t \<in> set (tasks st). user t = c
              \<and> (case flt_priority (build_filter c q) of
                    None \<Rightarrow> True | Some p \<Rightarrow> priority t = JStr p)
              \<and> completed t = JBool (v = ''true'')})"
proof (intro exI conjI)
  show "list_tasks c q st =
      (Json \<lparr>status = 200, success = True, message = None,
             count = Some (length (listed c q st)), data = TaskList (listed c q st)\<rparr>, st)"
    by (rule list_tasks_listed)
next
  show "q ''completed'' = None \<or> q ''completed'' = Some ''all'' \<longrightarrow>
      set (listed c q st) = {t \<in> set (tasks st). user t = c
        \<and> (case flt_priority (build_filter c q) of None \<Rightarrow> True | Some p \<Rightarrow> priority t = JStr p)}"
    by (auto simp: set_listed matches_def build_filter_def)
next
  show "\<forall>v. q ''completed'' = Some v \<and> v \<noteq> ''all'' \<longrightarrow>
      set (listed c q st) = {t \<in> set (tasks st). user t = c
        \<and> (case flt_priority (build_filter c q) of None \<Rightarrow> True | Some p \<Rightarrow> priority t = JStr p)
        \<and> completed t = JBool (v = ''true'')}"
    by (auto simp: set_listed matches_def build_filter_def)
qed

theorem list_completed_filter_witness:
  "(\<exists>ts. list_tasks 1 [''completed'' \<mapsto> ''false''] example_store =
          (Json \<lparr>status = 200, success = True, message = None,
                 count = Some (length ts), data = TaskList ts\<rparr>, example_store)
      \<and> set ts = {t \<in> set (tasks example_store). user t = 1 \<and> completed t = JBool False})
   \<and> (\<exists>ts. list_tasks 1 [''completed'' \<mapsto> ''all''] example_store =
          (Json \<lparr>status = 200, success = True, message = None,
                 count = Some (length ts), data = TaskList ts\<rparr>, example_store)
      \<and> set ts = {t \<in> set (tasks example_store). user t = 1})"
proof
  show "\<exists>ts. list_tasks 1 [''completed'' \<mapsto> ''false''] example_store =
          (Json \<lparr>status = 200, success = True, message = None,
                 count = Some (length ts), data = TaskList ts\<rparr>, example_store)
      \<and> set ts = {t \<in> set (tasks example_store). user t = 1 \<and> completed t = JBool False}"
    using list_completed_filter [of 1 "[''completed'' \<mapsto> ''false'']" example_store]
    by (simp add: build_filter_def)
next
  show "\<exists>ts. list_tasks 1 [''completed'' \<mapsto> ''all''] example_store =
          (Json \<lparr>status = 200, success = True, message = None,
                 count = Some (length ts), data = TaskList ts\<rparr>, example_store)
      \<and> set ts = {t \<in> set (tasks example_store). user t = 1}"
    using list_completed_filter [of 1 "[''completed'' \<mapsto> ''all'']" example_store]
    by (simp add: build_filter_def)
qed

text \<open>
  Claim C7 as stated (any present priority other than \<^verbatim>\<open>all\<close> filters, the empty
  string included) fails: \<^verbatim>\<open>priority && ...\<close> is false for the empty string, so
  \<^verbatim>\<open>?priority=\<close> returns the task of priority \<^verbatim>\<open>high\<close>.
\<close>

theorem list_empty_priority_counterexample:
  "list_tasks 1 [''priority'' \<mapsto> ''''] example_store =
     (Json \<lparr>status = 200, success = True, message = None,
            count = Some 1, data = TaskList [example_task]\<rparr>, example_store)
   \<and> [''priority'' \<mapsto> ''''] ''priority'' = Some ''''
   \<and> priority example_task \<noteq> JStr ''''"
  by (simp add: list_tasks_def Let_def Task_find_def build_filter_def matches_def
      sort_tasks_def sort_field_def sort_order_def example_store_def example_task_def)

text \<open>
  Claim C7, amended. Without \<^verbatim>\<open>priority\<close>, or with the empty string or
  \<^verbatim>\<open>all\<close>, list ignores the priority; with any other value it returns exactly the
  caller's tasks of that priority (among those the completed filter lets through).
\<close>

theorem list_priority_filter:
  "\<exists>ts. list_tasks c q st =
          (Json \<lparr>status = 200, success = True, message = None,
                 count = Some (length ts), data = TaskList ts\<rparr>, st)
      \<and> (q ''priority'' = None \<or> q ''priority'' = Some '''' \<or> q ''priority'' = Some ''all'' \<longrightarrow>
           set ts = {t \<in> set (tasks st). user t = c
              \<and> (case flt_completed (build_filter c q) of
                    None \<Rightarrow> True | Some v \<Rightarrow> completed t = JBool v)})
      \<and> (\<forall>p. q ''priority'' = Some p \<and> p \<noteq> '''' \<and> p \<noteq> ''all'' \<longrightarrow>
           set ts = {t \<in> set (tasks st). user t = c
              \<and> priority t = JStr p
              \<and> (case flt_completed (build_filter c q) of
                    None \<Rightarrow> True | Some v \<Rightarrow> completed t = JBool v)})"
proof (intro exI conjI)
  show "list_tasks c q st =
      (Json \<lparr>status = 200, success = True, message = None,
             count = Some (length (listed c q st)), data = TaskList (listed c q st)\<rparr>, st)"
    by (rule list_tasks_listed)
next
  show "q ''priority'' = None \<or> q ''priority'' = Some '''' \<or> q ''priority'' = Some ''all'' \<longrightarrow>
      set (listed c q st) = {t \<in> set (tasks st). user t = c
        \<and> (case flt_completed (build_filter c q) of None \<Rightarrow> True | Some v \<Rightarrow> completed t = JBool v)}"
    by (auto simp: set_listed matches_def build_filter_def)
next
  show "\<forall>p. q ''priority'' = Some p \<and> p \<noteq> '''' \<and> p \<noteq> ''all'' \<longrightarrow>
      set (listed c q st) = {t \<in> set (tasks st). user t = c
        \<and> priority t = JStr p
        \<and> (case flt_completed (build_filter c q) of None \<Rightarrow> True | Some v \<Rightarrow> completed t = JBool v)}"
    by (auto simp: set_listed matches_def build_filter_def)
qed

theorem list_priority_filter_witness:
  "(\<exists>ts. list_tasks 1 [''priority'' \<mapsto> ''high''] example_store =
          (Json \<lparr>status = 200, success = True, message = None,
                 count = Some (length ts), data = TaskList ts\<rparr>, example_store)
      \<and> set ts = {t \<in> set (tasks example_store). user t = 1 \<and> priority t = JStr ''high''})
   \<and> (\<exists>ts. list_tasks 1 [''priority'' \<mapsto> ''''] example_store =
          (Json \<lparr>status = 200, success = True, message = None,
                 count = Some (length ts), data = TaskList ts\<rparr>, example_store)
      \<and> set ts = {t \<in> set (tasks example_store). user t = 1})"
proof
  show "\<exists>ts. list_tasks 1 [''priority'' \<mapsto> ''high''] example_store =
          (Json \<lparr>status = 200, success = True, message = None,
                 count = Some (length ts), data = TaskList ts\<rparr>, example_store)
      \<and> set ts = {t \<in> set (tasks example_store). user t = 1 \<and> priority t = JStr ''high''}"
    using list_priority_filter [of 1 "[''priority'' \<mapsto> ''high'']" example_store]
    by (simp add: build_filter_def)
next
  show "\<exists>ts. list_tasks 1 [''priority'' \<mapsto> ''''] example_store =
          (Json \<lparr>status = 200, success = True, message = None,
                 count = Some (length ts), data = TaskList ts\<rparr>, example_store)
      \<and> set ts = {t \<in> set (tasks example_store). user t = 1}"
    using list_priority_filter [of 1 "[''priority'' \<mapsto> '''']" example_store]
    by (simp add: build_filter_def)
qed

text \<open>
  Claim C8 as stated (two toggles restore the completed value of every existing task
  of the caller) fails for a value that is no boolean. Update stores
  \<^verbatim>\<open>completed\<close> as it is given, so \<^verbatim>\<open>{completed: null}\<close> leaves null in the
  task; the first toggle stores \<^verbatim>\<open>!null\<close>, which is true, and the second stores
  false, which is not the null the task started with.
\<close>

theorem toggle_null_flag_counterexample:
  "update_task example_env 1 0 [''completed'' \<mapsto> JNull] example_store
     = (Json (ok_message 200 ''Task updated successfully'' (TaskData null_flag_task)),
        \<lparr>tasks = [null_flag_task], next_id = 1\<rparr>)
   \<and> toggle_task example_env 1 0 \<lparr>tasks = [null_flag_task], next_id = 1\<rparr>
     = (Json (ok_message 200 ''Task marked as completed'' (TaskData toggled_once)),
        \<lparr>tasks = [toggled_once], next_id = 1\<rparr>)
   \<and> toggle_task example_env 1 0 \<lparr>tasks = [toggled_once], next_id = 1\<rparr>
     = (Json (ok_message 200 ''Task marked as incomplete'' (TaskData toggled_twice)),
        \<lparr>tasks = [toggled_twice], next_id = 1\<rparr>)
   \<and> completed null_flag_task = JNull
   \<and> completed toggled_twice = JBool False
   \<and> completed toggled_twice \<noteq> completed null_flag_task"
  by (simp add: update_task_def toggle_task_def lookup_def Task_findOne_def example_store_def
      example_task_def example_env_def set_title_def set_description_def set_dueDate_def
      set_priority_def set_completed_def task_save_def Let_def null_flag_task_def
      toggled_once_def toggled_twice_def)

text \<open>
  Claim C8, amended. On an existing task of the caller, a toggle answers 200, stores
  the negation of the completed value (a boolean, whatever the value was) and reports
  the new state in its message; a second toggle does the same again. When the completed
  value is a boolean, the first toggle flips it and the second brings it back to its
  original value.
\<close>

theorem toggle_involution:
  assumes "wf_store st" and "Task_findOne i c st = Some t"
  shows "\<exists>t1 st1 t2 st2.
      toggle_task e c i st =
        (Json (ok_message 200
           (''Task marked as '' @ (if truthy (completed t1) then ''completed'' else ''incomplete''))
           (TaskData t1)), st1)
    \<and> Task_findOne i c st1 = Some t1
    \<and> completed t1 = JBool (\<not> truthy (completed t))
    \<and> toggle_task e' c i st1 =
        (Json (ok_message 200
           (''Task marked as '' @ (if truthy (completed t2) then ''completed'' else ''incomplete''))
           (TaskData t2)), st2)
    \<and> Task_findOne i c st2 = Some t2
    \<and> completed t2 = JBool (truthy (completed t))
    \<and> (\<forall>v. completed t = JBool v \<longrightarrow> completed t1 = JBool (\<not> v) \<and> completed t2 = completed t)"
proof -
  define t1 where "t1 = t\<lparr>completed := JBool (\<not> truthy (completed t)), updatedAt := now e\<rparr>"
  define st1 where "st1 = st\<lparr>tasks := replace_doc t1 (tasks st)\<rparr>"
  define t2 where "t2 = t1\<lparr>completed := JBool (\<not> truthy (completed t1)), updatedAt := now e'\<rparr>"
  define st2 where "st2 = st1\<lparr>tasks := replace_doc t2 (tasks st1)\<rparr>"
  note first = toggle_step [OF assms(1,2) t1_def st1_def]
  note second = toggle_step [OF first(3) first(2) t2_def st2_def]
  have c1: "completed t1 = JBool (\<not> truthy (completed t))" by (simp add: t1_def)
  have c2: "completed t2 = JBool (truthy (completed t))" by (simp add: t2_def t1_def)
  have m1: "toggle_task e c i st =
        (Json (ok_message 200
           (''Task marked as '' @ (if truthy (completed t1) then ''completed'' else ''incomplete''))
           (TaskData t1)), st1)"
    using first(1) by (simp add: c1)
  have m2: "toggle_task e' c i st1 =
        (Json (ok_message 200
           (''Task marked as '' @ (if truthy (completed t2) then ''completed'' else ''incomplete''))
           (TaskData t2)), st2)"
    using second(1) by (simp add: c1 c2)
  have c3: "\<forall>v. completed t = JBool v \<longrightarrow> completed t1 = JBool (\<not> v) \<and> completed t2 = completed t"
    by (simp add: c1 c2)
  from m1 first(2) c1 m2 second(2) c2 c3 show ?thesis by blast
qed

theorem toggle_involution_witness:
  "\<exists>t1 st1 t2 st2.
      toggle_task example_env 1 0 example_store =
        (Json (ok_message 200 ''Task marked as completed'' (TaskData t1)), st1)
    \<and> completed t1 = JBool True
    \<and> toggle_task example_env 1 0 st1 =
        (Json (ok_message 200 ''Task marked as incomplete'' (TaskData t2)), st2)
    \<and> completed t2 = completed example_task"
proof -
  from toggle_involution [OF wf_example_store findOne_example, of example_env example_env]
  obtain t1 st1 t2 st2 where
    r1: "toggle_task example_env 1 0 example_store =
        (Json (ok_message 200
           (''Task marked as '' @ (if truthy (completed t1) then ''completed'' else ''incomplete''))
           (TaskData t1)), st1)"
    and c1: "completed t1 = JBool (\<not> truthy (completed example_task))"
    and r2: "toggle_task example_env 1 0 st1 =
        (Json (ok_message 200
           (''Task marked as '' @ (if truthy (completed t2) then ''completed'' else ''incomplete''))
           (TaskData t2)), st2)"
    and c2: "completed t2 = JBool (truthy (completed example_task))"
    by blast
  have c: "completed example_task = JBool False" by (simp add: example_task_def)
  from r1 c1 r2 c2 c have
    "toggle_task example_env 1 0 example_store =
        (Json (ok_message 200 ''Task marked as completed'' (TaskData t1)), st1)
    \<and> completed t1 = JBool True
    \<and> toggle_task example_env 1 0 st1 =
        (Json (ok_message 200 ''Task marked as incomplete'' (TaskData t2)), st2)
    \<and> completed t2 = completed example_task"
    by simp
  then show ?thesis by blast
qed

text \<open>
  Claim C9 (delete, then delete again). On an existing task of the caller, delete
  answers 200 without a data payload and removes that task and no other; a second
  delete of the same identifier answers 404 and leaves the store as it is.
\<close>

theorem delete_then_not_found:
  assumes "wf_store st" and "Task_findOne i c st = Some t"
  shows "\<exists>st1. delete_task c i st = (Json (ok_message 200 ''Task deleted successfully'' NoData), st1)
       \<and> data (ok_message 200 ''Task deleted successfully'' NoData) = NoData
       \<and> set (tasks st1) = set (tasks st) - {t}
       \<and> delete_task c i st1 = (Json not_found, st1)"
proof -
  define st1 where
    "st1 = st\<lparr>tasks := remove_first (\<lambda>t. task_id t = i \<and> user t = c) (tasks st)\<rparr>"
  from assms(1) have d: "distinct (map task_id (tasks st))" by (simp add: wf_store_def)
  from assms(2) have f: "find (\<lambda>t. task_id t = i \<and> user t = c) (tasks st) = Some t"
    by (simp add: Task_findOne_def)
  from remove_first_distinct [OF d f]
  have s: "set (tasks st1) = set (tasks st) - {t}"
    and n: "\<forall>u \<in> set (tasks st1). task_id u \<noteq> i"
    by (simp_all add: st1_def)
  have del: "delete_task c i st = (Json (ok_message 200 ''Task deleted successfully'' NoData), st1)"
    by (simp add: delete_task_def Task_findOneAndDelete_def assms(2) st1_def)
  from n have "Task_findOne i c st1 = None" by (simp add: findOne_None_iff)
  then have "delete_task c i st1 = (Json not_found, st1)" by (rule delete_task_None)
  with del s show ?thesis by (simp add: ok_message_def)
qed

theorem delete_then_not_found_witness:
  "\<exists>st1. delete_task 1 0 example_store
            = (Json (ok_message 200 ''Task deleted successfully'' NoData), st1)
       \<and> set (tasks st1) = set (tasks example_store) - {example_task}
       \<and> delete_task 1 0 st1 = (Json not_found, st1)"
  using delete_then_not_found [OF wf_example_store findOne_example] by blast

text \<open>
  Claim C10 (a truthy title that is no string). The check \<^verbatim>\<open>!title\<close> passes,
  \<^verbatim>\<open>title.trim()\<close> raises a TypeError, and the handler forwards it: no 400
  answer, and the store is as it was.
\<close>

theorem create_non_string_title:
  assumes "truthy (lookup b ''title'')" and "\<forall>s. lookup b ''title'' \<noteq> JStr s"
  shows "create_task e c b st = (Next TypeError, st)"
  using assms by (cases "lookup b ''title''") (simp_all add: create_task_def)

theorem create_non_string_title_witness:
  "create_task example_env 1 [''title'' \<mapsto> JNum 5] example_store = (Next TypeError, example_store)"
proof -
  have a: "truthy (lookup [''title'' \<mapsto> JNum 5] ''title'')" by (simp add: lookup_def)
  have b: "\<forall>s. lookup [''title'' \<mapsto> JNum 5] ''title'' \<noteq> JStr s" by (simp add: lookup_def)
  from create_non_string_title [OF a b] show ?thesis .
qed

end
